theory Spec2Isabelle
  imports Complex_Main "HOL-Library.Log_Nat" "HOL-Library.Signed_Division"
begin

section \<open>medis: the store of server.go\<close>

subsection \<open>time.Duration and the float64 arithmetic of Duration.Seconds\<close>

text \<open>
  A \<^verbatim>\<open>time.Duration\<close> is an int64 count of nanoseconds. It is modelled as an \<open>int\<close>;
  the two bounds of int64 are written out where the library saturates.
\<close>

type_synonym Duration = int

definition Second :: Duration where
  "Second = 1000000000"

definition minDuration :: Duration where
  "minDuration = - (2 ^ 63)"

definition maxDuration :: Duration where
  "maxDuration = 2 ^ 63 - 1"

text \<open>
  A float64 value is modelled by the rational it denotes. \<open>fl64\<close> rounds a rational to
  the nearest number with a 53 bit significand, ties to the even significand, which is
  what every IEEE 754 operation of Go does to its exact result (exponent range and
  subnormals are left out: no value below is near them).
\<close>

definition pow2 :: "int \<Rightarrow> rat" where
  "pow2 e = (if 0 \<le> e then 2 ^ nat e else 1 / 2 ^ nat (- e))"

definition round_half_even :: "rat \<Rightarrow> int" where
  "round_half_even x =
     (let n = \<lfloor>x\<rfloor>; r = x - of_int n
      in if r < 1 / 2 then n
         else if 1 / 2 < r then n + 1
         else if even n then n else n + 1)"

text \<open>The exponent \<open>e\<close> with \<open>2^e \<le> x < 2^(e+1)\<close> of a positive rational.\<close>

definition binary_exponent :: "rat \<Rightarrow> int" where
  "binary_exponent x =
     (if 1 \<le> x then bitlen \<lfloor>x\<rfloor> - 1 else - bitlen (\<lceil>1 / x\<rceil> - 1))"

definition fl64 :: "rat \<Rightarrow> rat" where
  "fl64 x =
     (if x = 0 then 0
      else let q = pow2 (binary_exponent \<bar>x\<bar> - 52)
           in of_int (round_half_even (x / q)) * q)"

text \<open>
  \<^verbatim>\<open>func (d Duration) Seconds() float64 {
      sec := d / Second
      nsec := d % Second
      return float64(sec) + float64(nsec)/1e9 }\<close>
  Go's \<^verbatim>\<open>/\<close> and \<^verbatim>\<open>%\<close> on integers truncate towards zero: \<open>sdiv\<close> and \<open>smod\<close>.
\<close>

definition Seconds :: "Duration \<Rightarrow> rat" where
  "Seconds d =
     (let sec = d sdiv Second; nsec = d smod Second
      in fl64 (fl64 (of_int sec) + fl64 (fl64 (of_int nsec) / 1000000000)))"

text \<open>The conversion \<^verbatim>\<open>int64(f)\<close> of a float64 drops the fraction (towards zero).\<close>

definition int64_of_float64 :: "rat \<Rightarrow> int" where
  "int64_of_float64 f = (if 0 \<le> f then \<lfloor>f\<rfloor> else \<lceil>f\<rceil>)"

subsection \<open>time.Time\<close>

text \<open>
  An instant is the number of nanoseconds since the zero value of \<^verbatim>\<open>time.Time\<close>, which
  is the instant \<open>0\<close>. Every reading of \<^verbatim>\<open>time.Now()\<close> is an argument of the operation
  that takes it.
\<close>

type_synonym Time = int

definition IsZero :: "Time \<Rightarrow> bool" where
  "IsZero t = (t = 0)"

definition After :: "Time \<Rightarrow> Time \<Rightarrow> bool" where
  "After t u = (u < t)"

definition Before :: "Time \<Rightarrow> Time \<Rightarrow> bool" where
  "Before t u = (t < u)"

definition Add :: "Time \<Rightarrow> Duration \<Rightarrow> Time" where
  "Add t d = t + d"

text \<open>\<^verbatim>\<open>t.Sub(u)\<close> is the duration \<open>t - u\<close>, saturated at the bounds of int64.\<close>

definition Sub :: "Time \<Rightarrow> Time \<Rightarrow> Duration" where
  "Sub t u =
     (if t - u < minDuration then minDuration
      else if maxDuration < t - u then maxDuration
      else t - u)"

subsection \<open>The store\<close>

record valueWithExpiry =
  val :: string
  expiry :: Time

text \<open>
  \<^verbatim>\<open>MiniRedis\<close> holds the mutex and the map. Every method runs under the exclusive lock
  from its first to its last statement, so a method is one atomic step on the map.
\<close>

record MiniRedis =
  data :: "string \<rightharpoonup> valueWithExpiry"

definition delete :: "MiniRedis \<Rightarrow> string \<Rightarrow> MiniRedis" where
  "delete m key = m\<lparr>data := (data m)(key := None)\<rparr>"

text \<open>\<^verbatim>\<open>Set(key, value, expiresDuration)\<close>; a nil duration is \<open>None\<close>.\<close>

definition Set :: "Time \<Rightarrow> MiniRedis \<Rightarrow> string \<Rightarrow> string \<Rightarrow> Duration option \<Rightarrow> MiniRedis" where
  "Set now m key v expiresDuration =
     (let e = (case expiresDuration of
                 None \<Rightarrow> 0
               | Some d \<Rightarrow> if 0 < Seconds d then Add now d else 0)
      in m\<lparr>data := (data m)(key \<mapsto> \<lparr>val = v, expiry = e\<rparr>)\<rparr>)"

definition Get :: "Time \<Rightarrow> MiniRedis \<Rightarrow> string \<Rightarrow> (string \<times> bool) \<times> MiniRedis" where
  "Get now m key =
     (case data m key of
        None \<Rightarrow> (([], False), m)
      | Some v \<Rightarrow>
          if IsZero (expiry v) \<or> After (expiry v) now then ((val v, True), m)
          else (([], False), delete m key))"

definition Delete :: "MiniRedis \<Rightarrow> string \<Rightarrow> MiniRedis" where
  "Delete m key = delete m key"

text \<open>
  \<^verbatim>\<open>TTL\<close> reads the clock twice: \<open>now1\<close> in \<^verbatim>\<open>v.expiry.After(time.Now())\<close> and \<open>now2\<close>
  in \<^verbatim>\<open>v.expiry.Sub(time.Now())\<close>.
\<close>

definition TTL :: "Time \<Rightarrow> Time \<Rightarrow> MiniRedis \<Rightarrow> string \<Rightarrow> (int \<times> bool) \<times> MiniRedis" where
  "TTL now1 now2 m key =
     (case data m key of
        None \<Rightarrow> ((- 2, False), m)
      | Some v \<Rightarrow>
          if IsZero (expiry v) then ((- 1, True), m)
          else if After (expiry v) now1
          then ((int64_of_float64 (Seconds (Sub (expiry v) now2)), True), m)
          else ((- 2, False), delete m key))"

text \<open>
  One tick of \<^verbatim>\<open>cleanupExpiredKeys\<close>: the \<^verbatim>\<open>range\<close> loop visits the keys of the map
  in an order \<open>ks\<close> that Go leaves open, and a key deleted before it is reached is
  not visited.
\<close>

definition cleanupStep :: "Time \<Rightarrow> string \<Rightarrow> MiniRedis \<Rightarrow> MiniRedis" where
  "cleanupStep now k m =
     (case data m k of
        None \<Rightarrow> m
      | Some v \<Rightarrow>
          if \<not> IsZero (expiry v) \<and> Before (expiry v) now then delete m k else m)"

fun cleanupLoop :: "Time \<Rightarrow> string list \<Rightarrow> MiniRedis \<Rightarrow> MiniRedis" where
  "cleanupLoop now [] m = m"
| "cleanupLoop now (k # ks) m = cleanupLoop now ks (cleanupStep now k m)"

subsection \<open>Library functions the handler calls\<close>

text \<open>
  \<^verbatim>\<open>handleRequest\<close> calls \<^verbatim>\<open>strings.TrimSpace\<close>, \<^verbatim>\<open>strings.Fields\<close>,
  \<^verbatim>\<open>strings.ToUpper\<close> and \<^verbatim>\<open>time.ParseDuration\<close> of the Go library. The handler is
  modelled over any four such functions, so that what is proved of it holds whatever
  the library does with Unicode space, Unicode case and the duration grammar.
\<close>

record stdlib =
  TrimSpace :: "string \<Rightarrow> string"
  Fields :: "string \<Rightarrow> string list"
  ToUpper :: "string \<Rightarrow> string"
  ParseDuration :: "string \<Rightarrow> Duration option"

text \<open>
  The library on ASCII input, to run the handler on concrete lines. The space
  characters of ASCII are tab, line feed, vertical tab, form feed, carriage return and
  space.
\<close>

definition isSpace :: "char \<Rightarrow> bool" where
  "isSpace c = (of_char c \<in> {9, 10, 11, 12, 13, 32 :: nat})"

definition strings_TrimSpace :: "string \<Rightarrow> string" where
  "strings_TrimSpace s = rev (dropWhile isSpace (rev (dropWhile isSpace s)))"

fun fieldsFrom :: "string \<Rightarrow> string \<Rightarrow> string list" where
  "fieldsFrom cur [] = (if cur = [] then [] else [cur])"
| "fieldsFrom cur (c # cs) =
     (if isSpace c then (if cur = [] then fieldsFrom [] cs else cur # fieldsFrom [] cs)
      else fieldsFrom (cur @ [c]) cs)"

definition strings_Fields :: "string \<Rightarrow> string list" where
  "strings_Fields s = fieldsFrom [] s"

definition upperChar :: "char \<Rightarrow> char" where
  "upperChar c =
     (case map_of (zip ''abcdefghijklmnopqrstuvwxyz'' ''ABCDEFGHIJKLMNOPQRSTUVWXYZ'') c of
        None \<Rightarrow> c
      | Some u \<Rightarrow> u)"

definition strings_ToUpper :: "string \<Rightarrow> string" where
  "strings_ToUpper s = map upperChar s"

text \<open>
  \<^verbatim>\<open>time.ParseDuration\<close> (Go 1.22, package time, format.go): an optional sign, then
  one or more groups of a decimal number, an optional fraction and a unit. The
  accumulators are uint64, here integers that the overflow checks of the library keep
  below \<open>2^64\<close>.
\<close>

definition isDigit :: "char \<Rightarrow> bool" where
  "isDigit c = (48 \<le> (of_char c :: nat) \<and> (of_char c :: nat) \<le> 57)"

definition digitVal :: "char \<Rightarrow> int" where
  "digitVal c = of_char c - 48"

fun leadingInt :: "int \<Rightarrow> string \<Rightarrow> (int \<times> string) option" where
  "leadingInt x [] = Some (x, [])"
| "leadingInt x (c # s) =
     (if \<not> isDigit c then Some (x, c # s)
      else if 2 ^ 63 div 10 < x then None
      else let y = x * 10 + digitVal c
           in if 2 ^ 63 < y then None else leadingInt y s)"

fun leadingFraction :: "int \<Rightarrow> rat \<Rightarrow> bool \<Rightarrow> string \<Rightarrow> int \<times> rat \<times> string" where
  "leadingFraction x scale overflow [] = (x, scale, [])"
| "leadingFraction x scale overflow (c # s) =
     (if \<not> isDigit c then (x, scale, c # s)
      else if overflow then leadingFraction x scale overflow s
      else if (2 ^ 63 - 1) div 10 < x then leadingFraction x scale True s
      else let y = x * 10 + digitVal c
           in if 2 ^ 63 < y then leadingFraction x scale True s
              else leadingFraction y (fl64 (scale * 10)) False s)"

definition unitMap :: "string \<rightharpoonup> int" where
  "unitMap =
     [''ns'' \<mapsto> 1,
      ''us'' \<mapsto> 1000,
      [CHR 0xC2, CHR 0xB5, CHR ''s''] \<mapsto> 1000,
      [CHR 0xCE, CHR 0xBC, CHR ''s''] \<mapsto> 1000,
      ''ms'' \<mapsto> 1000000,
      ''s'' \<mapsto> 1000000000,
      ''m'' \<mapsto> 60000000000,
      ''h'' \<mapsto> 3600000000000]"

definition inNumber :: "char \<Rightarrow> bool" where
  "inNumber c = (c = CHR ''.'' \<or> isDigit c)"

text \<open>
  One group, from the accumulated \<open>d\<close> and the rest \<open>s\<close> of the input (not empty):
  the new \<open>d\<close> and the rest after the unit, or \<open>None\<close> where the library returns an error.
\<close>

definition parseGroup :: "int \<Rightarrow> string \<Rightarrow> (int \<times> string) option" where
  "parseGroup d s =
     (if \<not> inNumber (hd s) then None
      else case leadingInt 0 s of
        None \<Rightarrow> None
      | Some (v, s1) \<Rightarrow>
          let pre = (length s \<noteq> length s1);
              (f, scale, s2, post) =
                (if s1 \<noteq> [] \<and> hd s1 = CHR ''.''
                 then let (f, scale, s2) = leadingFraction 0 1 False (tl s1)
                      in (f, scale, s2, length (tl s1) \<noteq> length s2)
                 else (0, 1, s1, False))
          in if \<not> pre \<and> \<not> post then None
             else let u = takeWhile (\<lambda>c. \<not> inNumber c) s2;
                      s3 = dropWhile (\<lambda>c. \<not> inNumber c) s2
                  in if u = [] then None
                     else case unitMap u of
                       None \<Rightarrow> None
                     | Some unit \<Rightarrow>
                         if 2 ^ 63 div unit < v then None
                         else let v1 = v * unit;
                                  v2 = (if 0 < f
                                        then v1 + \<lfloor>fl64 (fl64 (of_int f) * fl64 (of_int unit / scale))\<rfloor>
                                        else v1)
                              in if 0 < f \<and> 2 ^ 63 < v2 then None
                                 else let d1 = (d + v2) mod 2 ^ 64
                                      in if 2 ^ 63 < d1 then None else Some (d1, s3))"

text \<open>
  The loop \<^verbatim>\<open>for s != ""\<close>. The number \<open>n\<close> bounds the groups left to read; the
  length of the input is given for it, which is never too small.
\<close>

fun parseGroups :: "nat \<Rightarrow> int \<Rightarrow> string \<Rightarrow> int option" where
  "parseGroups n d [] = Some d"
| "parseGroups 0 d (c # s) = None"
| "parseGroups (Suc n) d (c # s) =
     (case parseGroup d (c # s) of
        None \<Rightarrow> None
      | Some (d1, s1) \<Rightarrow> parseGroups n d1 s1)"

definition time_ParseDuration :: "string \<Rightarrow> Duration option" where
  "time_ParseDuration orig =
     (let neg = (orig \<noteq> [] \<and> hd orig = CHR ''-'');
          s = (if orig \<noteq> [] \<and> (hd orig = CHR ''-'' \<or> hd orig = CHR ''+'') then tl orig else orig)
      in if s = ''0'' then Some 0
         else if s = [] then None
         else case parseGroups (length s) 0 s of
           None \<Rightarrow> None
         | Some d \<Rightarrow>
             if neg then Some (- d)
             else if 2 ^ 63 - 1 < d then None
             else Some d)"

definition go_stdlib :: stdlib where
  "go_stdlib =
     \<lparr>TrimSpace = strings_TrimSpace, Fields = strings_Fields,
      ToUpper = strings_ToUpper, ParseDuration = time_ParseDuration\<rparr>"

text \<open>\<^verbatim>\<open>strconv.FormatInt(i, 10)\<close>: the decimal digits of an integer, with its sign.\<close>

function decimal :: "int \<Rightarrow> string" where
  "decimal n =
     (if n < 10 then [''0123456789'' ! nat n]
      else decimal (n div 10) @ [''0123456789'' ! nat (n mod 10)])"
  by pat_completeness auto
termination
  by (relation "measure nat") auto

declare decimal.simps [simp del]

definition FormatInt :: "int \<Rightarrow> string" where
  "FormatInt i = (if i < 0 then CHR ''-'' # decimal (- i) else decimal i)"

subsection \<open>The connection handler\<close>

text \<open>
  The one way a command can end other than by writing a reply: the run-time panic of
  an index out of range, which no \<^verbatim>\<open>recover\<close> catches. \<open>IndexOutOfRange i n\<close> is
  the panic of index \<open>i\<close> on a slice of length \<open>n\<close>.
\<close>

datatype panic = IndexOutOfRange nat nat

datatype call =
  CallSet string string "Duration option"
| CallGet string
| CallDelete string
| CallTTL string

text \<open>
  What one pass of the loop body does: the line written to the connection, the
  methods of the store it called, and the store after it.
\<close>

record reply =
  written :: string
  called :: "call list"
  store :: MiniRedis

definition handleCommand ::
  "stdlib \<Rightarrow> Time \<Rightarrow> Time \<Rightarrow> MiniRedis \<Rightarrow> string \<Rightarrow> panic + reply" where
  "handleCommand lib now1 now2 mr line =
     (let cmdLine = TrimSpace lib line;
          cmdParts = Fields lib cmdLine
      in if length cmdParts = 0 then Inl (IndexOutOfRange 0 0)
         else let action = ToUpper lib (cmdParts ! 0)
         in if action = ''SET'' then
              (if length cmdParts < 3
               then Inr \<lparr>written = ''ERR wrong number of arguments for 'SET' command\<newline>'',
                         called = [], store = mr\<rparr>
               else if length cmdParts = 5 \<and> ToUpper lib (cmdParts ! 3) = ''EX''
               then (case ParseDuration lib (cmdParts ! 4 @ ''s'') of
                       None \<Rightarrow> Inr \<lparr>written = ''ERR invalid expire time\<newline>'',
                                      called = [], store = mr\<rparr>
                     | Some duration \<Rightarrow>
                         Inr \<lparr>written = ''OK\<newline>'',
                              called = [CallSet (cmdParts ! 1) (cmdParts ! 2) (Some duration)],
                              store = Set now1 mr (cmdParts ! 1) (cmdParts ! 2) (Some duration)\<rparr>)
               else Inr \<lparr>written = ''OK\<newline>'',
                         called = [CallSet (cmdParts ! 1) (cmdParts ! 2) None],
                         store = Set now1 mr (cmdParts ! 1) (cmdParts ! 2) None\<rparr>)
            else if action = ''GET'' then
              (if length cmdParts \<noteq> 2
               then Inr \<lparr>written = ''-ERR wrong number of arguments for 'GET' command\<newline>'',
                         called = [], store = mr\<rparr>
               else let ((v, ok), mr1) = Get now1 mr (cmdParts ! 1)
                    in if \<not> ok
                       then Inr \<lparr>written = ''$-1\<newline>'',
                                 called = [CallGet (cmdParts ! 1)], store = mr1\<rparr>
                       else Inr \<lparr>written = ''$'' @ v @ ''\<newline>'',
                                 called = [CallGet (cmdParts ! 1)], store = mr1\<rparr>)
            else if action = ''DEL'' then
              (if length cmdParts \<noteq> 2
               then Inr \<lparr>written = ''-ERR wrong number of arguments for 'DEL' command\<newline>'',
                         called = [], store = mr\<rparr>
               else Inr \<lparr>written = ''OK\<newline>'',
                         called = [CallDelete (cmdParts ! 1)],
                         store = Delete mr (cmdParts ! 1)\<rparr>)
            else if action = ''TTL'' then
              (if length cmdParts \<noteq> 2
               then Inr \<lparr>written = ''-ERR wrong number of arguments for 'TTL' command\<newline>'',
                         called = [], store = mr\<rparr>
               else let ((ttl, ok), mr1) = TTL now1 now2 mr (cmdParts ! 1)
                    in if \<not> ok
                       then Inr \<lparr>written = ''-2\<newline>'',
                                 called = [CallTTL (cmdParts ! 1)], store = mr1\<rparr>
                       else Inr \<lparr>written = FormatInt ttl @ ''\<newline>'',
                                 called = [CallTTL (cmdParts ! 1)], store = mr1\<rparr>)
            else Inr \<lparr>written = ''-ERR unknown command\<newline>'', called = [], store = mr\<rparr>)"

text \<open>
  The loop of \<^verbatim>\<open>handleRequest\<close> on one connection: the lines read before
  \<^verbatim>\<open>ReadString\<close> fails, each with the two clock readings its command can take. It
  returns the lines written and the store when the read fails, and stops at a panic.
\<close>

fun handleRequest ::
  "stdlib \<Rightarrow> MiniRedis \<Rightarrow> (Time \<times> Time \<times> string) list \<Rightarrow> panic + (string list \<times> MiniRedis)" where
  "handleRequest lib mr [] = Inr ([], mr)"
| "handleRequest lib mr ((now1, now2, line) # rest) =
     (case handleCommand lib now1 now2 mr line of
        Inl p \<Rightarrow> Inl p
      | Inr r \<Rightarrow>
          (case handleRequest lib (store r) rest of
             Inl p \<Rightarrow> Inl p
           | Inr (ws, mr1) \<Rightarrow> Inr (written r # ws, mr1)))"

section \<open>Properties\<close>

subsection \<open>Signs under float64 rounding\<close>

lemma pow2_pos: "0 < pow2 e"
  by (simp add: pow2_def)

lemma pow2_diff: "pow2 (a - b) = pow2 a / pow2 b"
proof -
  have "pow2 e = 2 powi e" for e
    by (simp add: pow2_def power_int_def power_one_over inverse_eq_divide)
  then show ?thesis
    by (simp add: power_int_diff)
qed

lemma round_half_even_ge1: "1 \<le> x \<Longrightarrow> 1 \<le> round_half_even x"
proof -
  assume "1 \<le> x"
  then have "1 \<le> \<lfloor>x\<rfloor>" by linarith
  then show ?thesis by (simp add: round_half_even_def Let_def)
qed

lemma round_half_even_bounds: "\<lfloor>x\<rfloor> \<le> round_half_even x \<and> round_half_even x \<le> \<lfloor>x\<rfloor> + 1"
  by (simp add: round_half_even_def Let_def)

lemma round_half_even_le_m1: "x \<le> - 1 \<Longrightarrow> round_half_even x \<le> - 1"
proof -
  assume a: "x \<le> - 1"
  then have f: "\<lfloor>x\<rfloor> \<le> - 1" by linarith
  show ?thesis
  proof (cases "\<lfloor>x\<rfloor> = - 1")
    case True
    then show ?thesis using a by (simp add: round_half_even_def Let_def)
  next
    case False
    then have "\<lfloor>x\<rfloor> < - 1" using f by simp
    then show ?thesis using round_half_even_bounds [of x] by linarith
  qed
qed

lemma binary_exponent_le: assumes "0 < x" shows "pow2 (binary_exponent x) \<le> x"
proof (cases "1 \<le> x")
  case True
  then have p: "0 < \<lfloor>x\<rfloor>" by linarith
  have b: "1 \<le> bitlen \<lfloor>x\<rfloor>" using p by (simp add: bitlen_alt_def)
  have "(2::int) ^ nat (bitlen \<lfloor>x\<rfloor> - 1) \<le> \<lfloor>x\<rfloor>" using bitlen_bounds [OF p] by simp
  then have "(of_int (2 ^ nat (bitlen \<lfloor>x\<rfloor> - 1)) :: rat) \<le> of_int \<lfloor>x\<rfloor>"
    by (simp only: of_int_le_iff)
  also have "\<dots> \<le> x" by simp
  finally show ?thesis using True b by (simp add: binary_exponent_def pow2_def)
next
  case False
  then have x1: "x < 1" by simp
  define n where "n = \<lceil>1 / x\<rceil> - 1"
  have "1 < 1 / x" using assms x1 by simp
  then have p: "0 < n" unfolding n_def by linarith
  have "n < 2 ^ nat (bitlen n)" using bitlen_bounds [OF p] by simp
  then have "\<lceil>1 / x\<rceil> \<le> 2 ^ nat (bitlen n)" unfolding n_def by linarith
  then have "1 / x \<le> of_int (2 ^ nat (bitlen n))" by (simp only: ceiling_le_iff)
  then have "1 / x \<le> 2 ^ nat (bitlen n)" by simp
  then have "1 \<le> 2 ^ nat (bitlen n) * x" using assms by (simp add: field_simps)
  then have "1 / 2 ^ nat (bitlen n) \<le> x" by (simp add: field_simps)
  moreover have "0 < bitlen n" using p by (simp add: bitlen_alt_def)
  ultimately show ?thesis using False by (simp add: binary_exponent_def pow2_def n_def)
qed

lemma fl64_pos: assumes "0 < x" shows "0 < fl64 x"
proof -
  define e where "e = binary_exponent \<bar>x\<bar>"
  define q where "q = pow2 (e - 52)"
  have q: "0 < q" by (simp add: q_def pow2_pos)
  have "pow2 e \<le> x" using binary_exponent_le [of x] assms by (simp add: e_def)
  moreover have "pow2 52 * q = pow2 e" by (simp add: q_def pow2_diff pow2_pos less_imp_neq [OF pow2_pos, symmetric])
  ultimately have "pow2 52 * q \<le> x" by simp
  then have "pow2 52 \<le> x / q" using q by (simp add: field_simps)
  moreover have "1 \<le> pow2 52" by (simp add: pow2_def)
  ultimately have "1 \<le> x / q" by linarith
  then have "1 \<le> round_half_even (x / q)" by (rule round_half_even_ge1)
  then have "0 < (of_int (round_half_even (x / q)) :: rat) * q" using q by simp
  then show ?thesis using assms by (simp add: fl64_def Let_def e_def q_def)
qed

lemma fl64_neg: assumes "x < 0" shows "fl64 x < 0"
proof -
  define e where "e = binary_exponent \<bar>x\<bar>"
  define q where "q = pow2 (e - 52)"
  have q: "0 < q" by (simp add: q_def pow2_pos)
  have "pow2 e \<le> - x" using binary_exponent_le [of "- x"] assms by (simp add: e_def)
  moreover have "pow2 52 * q = pow2 e" by (simp add: q_def pow2_diff pow2_pos less_imp_neq [OF pow2_pos, symmetric])
  ultimately have "pow2 52 * q \<le> - x" by simp
  then have "pow2 52 \<le> - x / q" using q by (simp add: field_simps)
  moreover have "1 \<le> pow2 52" by (simp add: pow2_def)
  ultimately have "x / q \<le> - 1" by simp
  then have "round_half_even (x / q) \<le> - 1" by (rule round_half_even_le_m1)
  then have "(of_int (round_half_even (x / q)) :: rat) \<le> - 1" by (metis of_int_le_iff of_int_minus of_int_1)
  then have "(of_int (round_half_even (x / q)) :: rat) * q < 0" using q by (simp add: mult_less_0_iff)
  then show ?thesis using assms by (simp add: fl64_def Let_def e_def q_def)
qed

lemma fl64_zero: "fl64 0 = 0"
  by (simp add: fl64_def)

lemma fl64_pos_iff: "0 < fl64 x \<longleftrightarrow> 0 < x"
  using fl64_pos [of x] fl64_neg [of x] fl64_zero by (cases "x = 0"; cases "0 < x") auto

lemma fl64_nonneg_iff: "0 \<le> fl64 x \<longleftrightarrow> 0 \<le> x"
  using fl64_pos [of x] fl64_neg [of x] fl64_zero by (cases "x = 0"; cases "0 < x") auto

lemma Seconds_pos_iff: "0 < Seconds d \<longleftrightarrow> 0 < d"
proof (cases "0 < d")
  case True
  define s where "s = d sdiv Second"
  define n where "n = d smod Second"
  have s: "0 \<le> s" using True by (simp add: s_def signed_divide_int_def Second_def pos_imp_zdiv_nonneg_iff)
  have n: "0 \<le> n" using True by (simp add: n_def signed_modulo_int_def Second_def)
  have sn: "s * Second + n = d" unfolding s_def n_def by (rule sdiv_mult_smod_eq)
  have "0 < s \<or> 0 < n" using sn True s n by (cases "s = 0") auto
  then have "0 < fl64 (of_int s) + fl64 (fl64 (of_int n) / 1000000000)"
  proof
    assume "0 < s"
    then have "0 < fl64 (of_int s)" by (simp add: fl64_pos_iff)
    moreover have "0 \<le> fl64 (fl64 (of_int n) / 1000000000)" using n by (simp add: fl64_nonneg_iff)
    ultimately show ?thesis by linarith
  next
    assume "0 < n"
    then have "0 < fl64 (fl64 (of_int n) / 1000000000)" by (simp add: fl64_pos_iff)
    moreover have "0 \<le> fl64 (of_int s)" using s by (simp add: fl64_nonneg_iff)
    ultimately show ?thesis by linarith
  qed
  then show ?thesis using True by (simp add: Seconds_def Let_def fl64_pos_iff s_def n_def)
next
  case False
  define s where "s = d sdiv Second"
  define n where "n = d smod Second"
  have s: "s \<le> 0" using False by (simp add: s_def signed_divide_int_def Second_def sgn_if pos_imp_zdiv_nonneg_iff)
  have n: "n \<le> 0" using False by (simp add: n_def signed_modulo_int_def Second_def sgn_if)
  have "\<not> 0 < fl64 (of_int s)" using s by (simp add: fl64_pos_iff)
  moreover have "\<not> 0 < fl64 (fl64 (of_int n) / 1000000000)" using n by (simp add: fl64_pos_iff)
  ultimately have "\<not> 0 < fl64 (of_int s) + fl64 (fl64 (of_int n) / 1000000000)" by linarith
  then show ?thesis using False by (simp add: Seconds_def Let_def fl64_pos_iff s_def n_def)
qed

subsection \<open>Whole seconds under float64 rounding\<close>

lemma round_half_even_of_int: "round_half_even (of_int n) = n"
  by (simp add: round_half_even_def)

lemma round_half_even_ge_int: "of_int n \<le> y \<Longrightarrow> n \<le> round_half_even y"
proof -
  assume "of_int n \<le> y"
  then have "n \<le> \<lfloor>y\<rfloor>" by (simp add: le_floor_iff)
  then show ?thesis using round_half_even_bounds [of y] by linarith
qed

lemma round_half_even_le_int: "y \<le> of_int n \<Longrightarrow> round_half_even y \<le> n"
proof (cases "y = of_int n")
  case True
  then show ?thesis by (simp add: round_half_even_of_int)
next
  case False
  assume "y \<le> of_int n"
  with False have "y < of_int n" by simp
  then have "\<lfloor>y\<rfloor> < n" by (simp add: floor_less_iff)
  then show ?thesis using round_half_even_bounds [of y] by linarith
qed

lemma binary_exponent_le_52:
  assumes "0 < x" and "x \<le> 2 ^ 52"
  shows "binary_exponent x \<le> 52"
proof (rule ccontr)
  assume "\<not> binary_exponent x \<le> 52"
  then have e: "53 \<le> binary_exponent x" by simp
  then have "(2::rat) ^ 53 \<le> 2 ^ nat (binary_exponent x)"
    by (intro power_increasing) auto
  also have "\<dots> = pow2 (binary_exponent x)" using e by (simp add: pow2_def)
  also have "\<dots> \<le> x" using assms(1) by (rule binary_exponent_le)
  finally show False using assms(2) by simp
qed

lemma fl64_between:
  fixes k :: int
  assumes lo: "of_int k \<le> x" and hi: "x \<le> of_int k + 1" and small: "\<bar>x\<bar> \<le> 2 ^ 52"
  shows "of_int k \<le> fl64 x \<and> fl64 x \<le> of_int k + 1"
proof (cases "x = 0")
  case True
  then show ?thesis using lo hi by (simp add: fl64_def)
next
  case False
  define e where "e = binary_exponent \<bar>x\<bar>"
  define j where "j = nat (52 - e)"
  have e52: "e \<le> 52" unfolding e_def using False small by (intro binary_exponent_le_52) auto
  have q: "pow2 (e - 52) = 1 / 2 ^ j"
    using e52 by (cases "e = 52") (auto simp add: pow2_def j_def)
  have f: "fl64 x = of_int (round_half_even (x * 2 ^ j)) / 2 ^ j"
    using False by (simp add: fl64_def Let_def e_def [symmetric] q)
  have "of_int (k * 2 ^ j) \<le> x * 2 ^ j" using lo by simp
  then have a: "k * 2 ^ j \<le> round_half_even (x * 2 ^ j)" by (rule round_half_even_ge_int)
  have "x * 2 ^ j \<le> of_int ((k + 1) * 2 ^ j)" using hi by simp
  then have b: "round_half_even (x * 2 ^ j) \<le> (k + 1) * 2 ^ j" by (rule round_half_even_le_int)
  from a have "(of_int (k * 2 ^ j) :: rat) \<le> of_int (round_half_even (x * 2 ^ j))"
    by (simp only: of_int_le_iff)
  then have a': "of_int k \<le> fl64 x" by (simp add: f field_simps)
  from b have "(of_int (round_half_even (x * 2 ^ j)) :: rat) \<le> of_int ((k + 1) * 2 ^ j)"
    by (simp only: of_int_le_iff)
  then have b': "fl64 x \<le> of_int k + 1" by (simp add: f field_simps)
  from a' b' show ?thesis by simp
qed

lemma fl64_of_int:
  fixes k :: int
  assumes "\<bar>k\<bar> \<le> 2 ^ 52"
  shows "fl64 (of_int k) = of_int k"
proof (cases "k = 0")
  case True
  then show ?thesis by (simp add: fl64_def)
next
  case False
  define e where "e = binary_exponent \<bar>of_int k\<bar>"
  define j where "j = nat (52 - e)"
  have "\<bar>of_int k :: rat\<bar> \<le> 2 ^ 52"
    using assms by (metis of_int_abs of_int_le_iff of_int_numeral of_int_power)
  then have e52: "e \<le> 52" unfolding e_def using False by (intro binary_exponent_le_52) auto
  have q: "pow2 (e - 52) = 1 / 2 ^ j"
    using e52 by (cases "e = 52") (auto simp add: pow2_def j_def)
  have "round_half_even (of_int k * 2 ^ j) = k * 2 ^ j"
    using round_half_even_of_int [of "k * 2 ^ j"] by simp
  then show ?thesis
    using False by (simp add: fl64_def Let_def e_def [symmetric] q)
qed

lemma Seconds_whole_nonneg:
  assumes d0: "0 \<le> d" and dmax: "d \<le> maxDuration"
  shows "\<lfloor>(of_int d :: rat) / 1000000000\<rfloor> \<le> int64_of_float64 (Seconds d) \<and>
         int64_of_float64 (Seconds d) \<le> \<lceil>(of_int d :: rat) / 1000000000\<rceil>"
proof -
  define s where "s = d div 1000000000"
  define n where "n = d mod 1000000000"
  define b where "b = fl64 (fl64 (of_int n) / 1000000000)"
  define y where "y = fl64 (fl64 (of_int s) + b)"
  have sd: "d sdiv Second = s" and nd: "d smod Second = n"
    using d0 by (simp_all add: signed_divide_int_def signed_modulo_int_def Second_def s_def n_def sgn_if)
  have S: "Seconds d = y"
    by (simp add: Seconds_def Let_def sd nd y_def b_def)
  have s0: "0 \<le> s" and n0: "0 \<le> n" and n1: "n < 1000000000"
    using d0 by (simp_all add: s_def n_def pos_imp_zdiv_nonneg_iff)
  have ssmall: "s \<le> 2 ^ 52 - 1"
    using dmax by (simp add: s_def maxDuration_def) 
  have dsn: "d = s * 1000000000 + n"
    by (simp add: s_def n_def)
  have fs: "fl64 (of_int s) = of_int s"
    using s0 ssmall by (intro fl64_of_int) simp
  have fn: "fl64 (of_int n) = of_int n"
    using n0 n1 by (intro fl64_of_int) simp
  have frac: "0 \<le> (of_int n :: rat) / 1000000000 \<and> (of_int n :: rat) / 1000000000 < 1"
    using n0 n1 by simp
  have "of_int 0 \<le> b \<and> b \<le> of_int 0 + 1"
    unfolding b_def fn using frac by (intro fl64_between) auto
  then have b01: "0 \<le> b" "b \<le> 1" by simp_all
  have "of_int s \<le> y \<and> y \<le> of_int s + 1"
    unfolding y_def fs using b01 s0 ssmall
    by (intro fl64_between) (auto simp add: abs_if)
  then have ys: "of_int s \<le> y" "y \<le> of_int s + 1" by simp_all
  have "(0::rat) \<le> of_int s" using s0 by simp
  then have y0: "0 \<le> y" using ys(1) by linarith
  have r: "int64_of_float64 (Seconds d) = \<lfloor>y\<rfloor>"
    using y0 by (simp add: int64_of_float64_def S)
  have lo: "s \<le> \<lfloor>y\<rfloor>" using ys(1) by (simp add: le_floor_iff)
  have hi: "\<lfloor>y\<rfloor> \<le> s + 1" using ys(2) by (metis floor_mono floor_of_int of_int_1 of_int_add)
  have dq: "(of_int d :: rat) / 1000000000 = of_int s + of_int n / 1000000000"
    by (simp add: dsn)
  have fl: "\<lfloor>(of_int d :: rat) / 1000000000\<rfloor> = s"
    unfolding dq using frac by (simp add: floor_unique)
  show ?thesis
  proof (cases "n = 0")
    case True
    then have "b = 0" by (simp add: b_def fl64_def)
    then have "y = of_int s" by (simp add: y_def fs)
    then have "\<lfloor>y\<rfloor> = s" by simp
    moreover have "\<lceil>(of_int d :: rat) / 1000000000\<rceil> = s" unfolding dq using True by simp
    ultimately show ?thesis using r fl by simp
  next
    case False
    then have "0 < (of_int n :: rat) / 1000000000" using n0 by simp
    then have "of_int s < (of_int d :: rat) / 1000000000" unfolding dq by simp
    then have "s < \<lceil>(of_int d :: rat) / 1000000000\<rceil>" by (simp add: less_ceiling_iff)
    then show ?thesis using r fl lo hi by simp
  qed
qed

lemma Seconds_whole_neg:
  assumes d0: "d < 0" and dmin: "minDuration \<le> d"
  shows "\<lfloor>(of_int d :: rat) / 1000000000\<rfloor> \<le> int64_of_float64 (Seconds d) \<and>
         int64_of_float64 (Seconds d) \<le> \<lceil>(of_int d :: rat) / 1000000000\<rceil>"
proof -
  define s where "s = - ((- d) div 1000000000)"
  define n where "n = - ((- d) mod 1000000000)"
  define b where "b = fl64 (fl64 (of_int n) / 1000000000)"
  define y where "y = fl64 (fl64 (of_int s) + b)"
  have sd: "d sdiv Second = s" and nd: "d smod Second = n"
    using d0 by (simp_all add: signed_divide_int_def signed_modulo_int_def Second_def s_def n_def sgn_if)
  have S: "Seconds d = y"
    by (simp add: Seconds_def Let_def sd nd y_def b_def)
  have s0: "s \<le> 0" and n0: "n \<le> 0" and n1: "- 1000000000 < n"
    using d0 by (simp_all add: s_def n_def pos_imp_zdiv_nonneg_iff)
  have ssmall: "- (2 ^ 52 - 1) \<le> s"
    using dmin by (simp add: s_def minDuration_def)
  have "(- d) div 1000000000 * 1000000000 + (- d) mod 1000000000 = - d"
    by (rule div_mult_mod_eq)
  then have dsn: "d = s * 1000000000 + n"
    unfolding s_def n_def by linarith
  have fs: "fl64 (of_int s) = of_int s"
    using s0 ssmall by (intro fl64_of_int) simp
  have fn: "fl64 (of_int n) = of_int n"
    using n0 n1 by (intro fl64_of_int) simp
  have frac: "- 1 < (of_int n :: rat) / 1000000000 \<and> (of_int n :: rat) / 1000000000 \<le> 0"
    using n0 n1 by simp
  have "of_int (- 1) \<le> b \<and> b \<le> of_int (- 1) + 1"
    unfolding b_def fn using frac by (intro fl64_between) auto
  then have b01: "- 1 \<le> b" "b \<le> 0" by simp_all
  have "of_int (s - 1) \<le> y \<and> y \<le> of_int (s - 1) + 1"
    unfolding y_def fs using b01 s0 ssmall
    by (intro fl64_between) (auto simp add: abs_if)
  then have ys: "of_int s - 1 \<le> y" "y \<le> of_int s" by simp_all
  have "of_int s \<le> (0::rat)" using s0 by simp
  then have y0: "y \<le> 0" using ys(2) by linarith
  have r: "int64_of_float64 (Seconds d) = \<lceil>y\<rceil>"
    using y0 by (cases "y = 0") (simp_all add: int64_of_float64_def S)
  have hi: "\<lceil>y\<rceil> \<le> s" using ys(2) by (simp add: ceiling_le_iff)
  have "of_int (s - 1) \<le> y" using ys(1) by simp
  then have lo: "s - 1 \<le> \<lceil>y\<rceil>" by (metis ceiling_mono ceiling_of_int)
  have dq: "(of_int d :: rat) / 1000000000 = of_int s + of_int n / 1000000000"
    by (simp add: dsn)
  have ce: "\<lceil>(of_int d :: rat) / 1000000000\<rceil> = s"
    unfolding dq using frac by (intro ceiling_unique) auto
  show ?thesis
  proof (cases "n = 0")
    case True
    then have "b = 0" by (simp add: b_def fl64_def)
    then have "y = of_int s" by (simp add: y_def fs)
    then have "\<lceil>y\<rceil> = s" by simp
    moreover have "\<lfloor>(of_int d :: rat) / 1000000000\<rfloor> = s" unfolding dq using True by simp
    ultimately show ?thesis using r ce by simp
  next
    case False
    then have "(of_int n :: rat) / 1000000000 < 0" using n0 by simp
    then have "(of_int d :: rat) / 1000000000 < of_int s" unfolding dq by simp
    then have "\<lfloor>(of_int d :: rat) / 1000000000\<rfloor> < s" by (simp add: floor_less_iff)
    then show ?thesis using r ce lo hi by simp
  qed
qed

lemma Seconds_whole:
  assumes "minDuration \<le> d" and "d \<le> maxDuration"
  shows "\<lfloor>(of_int d :: rat) / 1000000000\<rfloor> \<le> int64_of_float64 (Seconds d) \<and>
         int64_of_float64 (Seconds d) \<le> \<lceil>(of_int d :: rat) / 1000000000\<rceil>"
  using assms Seconds_whole_nonneg [of d] Seconds_whole_neg [of d] by (cases "0 \<le> d") simp_all

lemma Sub_range: "minDuration \<le> Sub t u \<and> Sub t u \<le> maxDuration"
  by (simp add: Sub_def minDuration_def maxDuration_def)

lemma Sub_exact:
  "minDuration \<le> t - u \<Longrightarrow> t - u \<le> maxDuration \<Longrightarrow> Sub t u = t - u"
  by (simp add: Sub_def)

subsection \<open>The loop of ParseDuration ends\<close>

text \<open>
  Each group consumes at least the character of its unit, so the length of the input
  bounds the number of groups: with that bound or any larger one the loop gives the
  same result.
\<close>

lemma leadingInt_length:
  "leadingInt x s = Some (v, r) \<Longrightarrow> length r \<le> length s"
  by (induction x s rule: leadingInt.induct) (auto simp add: Let_def split: if_splits)

lemma leadingFraction_length:
  "leadingFraction x sc ov s = (f, sc', r) \<Longrightarrow> length r \<le> length s"
  by (induction x sc ov s rule: leadingFraction.induct) (auto simp add: Let_def split: if_splits)

lemma unit_shorter:
  assumes "takeWhile P s \<noteq> []"
  shows "length (dropWhile P s) < length s"
proof -
  have "length (takeWhile P s @ dropWhile P s) = length s"
    by simp
  then have "length (takeWhile P s) + length (dropWhile P s) = length s"
    by (simp only: length_append)
  moreover from assms have "0 < length (takeWhile P s)"
    by simp
  ultimately show ?thesis
    by linarith
qed

lemma parseGroup_shorter:
  assumes "parseGroup d s = Some (d1, s3)"
  shows "length s3 < length s"
proof -
  from assms obtain v s1 where li: "leadingInt 0 s = Some (v, s1)"
    by (auto simp add: parseGroup_def split: if_splits option.splits)
  define fr where "fr = (if s1 \<noteq> [] \<and> hd s1 = CHR ''.''
                 then let (f, scale, s2) = leadingFraction 0 1 False (tl s1)
                      in (f, scale, s2, length (tl s1) \<noteq> length s2)
                 else (0, 1, s1, False))"
  obtain f scale s2 post where fr: "fr = (f, scale, s2, post)"
    by (cases fr) auto
  have l1: "length s1 \<le> length s"
    using li by (rule leadingInt_length)
  have l2: "length s2 \<le> length s1"
  proof (cases "s1 \<noteq> [] \<and> hd s1 = CHR ''.''")
    case True
    obtain f' sc' r' where lf: "leadingFraction 0 1 False (tl s1) = (f', sc', r')"
      by (cases "leadingFraction 0 1 False (tl s1)") auto
    then have "s2 = r'" using fr True by (simp add: fr_def)
    moreover have "length r' \<le> length (tl s1)" using lf by (rule leadingFraction_length)
    ultimately show ?thesis by simp
  next
    case False
    then show ?thesis using fr by (auto simp add: fr_def)
  qed
  have "takeWhile (\<lambda>c. \<not> inNumber c) s2 \<noteq> [] \<and> s3 = dropWhile (\<lambda>c. \<not> inNumber c) s2"
    using assms li fr
    by (auto simp add: parseGroup_def fr_def [symmetric] Let_def split: if_splits option.splits)
  then have "length s3 < length s2"
    using unit_shorter by blast
  with l1 l2 show ?thesis by linarith
qed

lemma parseGroups_fuel:
  "length s \<le> n \<Longrightarrow> length s \<le> m \<Longrightarrow> parseGroups n d s = parseGroups m d s"
proof (induction n arbitrary: m d s)
  case 0
  then show ?case by simp
next
  case (Suc n)
  show ?case
  proof (cases s)
    case Nil
    then show ?thesis by simp
  next
    case (Cons c cs)
    with Suc.prems obtain m' where m: "m = Suc m'"
      by (cases m) auto
    show ?thesis
    proof (cases "parseGroup d s")
      case None
      then show ?thesis using Cons m by simp
    next
      case (Some p)
      obtain d1 s1 where p: "p = (d1, s1)" by (cases p)
      from Some p have "length s1 < length s" by (auto dest: parseGroup_shorter)
      with Suc.prems m have "length s1 \<le> n" "length s1 \<le> m'" by simp_all
      then have "parseGroups n d1 s1 = parseGroups m' d1 s1" by (rule Suc.IH)
      then show ?thesis using Cons m Some p by simp
    qed
  qed
qed

subsection \<open>The store operations by cases\<close>

lemma Get_cases:
  "Get now m key =
     (case data m key of
        None \<Rightarrow> (([], False), m)
      | Some v \<Rightarrow>
          if expiry v = 0 \<or> now < expiry v then ((val v, True), m)
          else (([], False), m\<lparr>data := (data m)(key := None)\<rparr>))"
  by (simp add: Get_def IsZero_def After_def delete_def split: option.splits)

lemma TTL_cases:
  "TTL now1 now2 m key =
     (case data m key of
        None \<Rightarrow> ((- 2, False), m)
      | Some v \<Rightarrow>
          if expiry v = 0 then ((- 1, True), m)
          else if now1 < expiry v
          then ((int64_of_float64 (Seconds (Sub (expiry v) now2)), True), m)
          else ((- 2, False), m\<lparr>data := (data m)(key := None)\<rparr>))"
  by (simp add: TTL_def IsZero_def After_def delete_def split: option.splits)

lemma Set_no_expiry:
  "ttl = None \<or> (\<exists>d. ttl = Some d \<and> d \<le> 0) \<Longrightarrow>
   Set now m k v ttl = m\<lparr>data := (data m)(k \<mapsto> \<lparr>val = v, expiry = 0\<rparr>)\<rparr>"
  by (auto simp add: Set_def Seconds_pos_iff)

lemma cleanupStep_data:
  "data (cleanupStep now k m) k' =
     (if k' = k then (case data m k of None \<Rightarrow> None
                      | Some v \<Rightarrow> if expiry v \<noteq> 0 \<and> expiry v < now then None else Some v)
      else data m k')"
  by (simp add: cleanupStep_def IsZero_def Before_def delete_def split: option.splits)

lemma cleanupLoop_data:
  "data (cleanupLoop now ks m) k =
     (if k \<in> set ks then (case data m k of None \<Rightarrow> None
                      | Some v \<Rightarrow> if expiry v \<noteq> 0 \<and> expiry v < now then None else Some v)
      else data m k)"
  by (induction ks arbitrary: m) (auto simp add: cleanupStep_data split: option.splits)

subsection \<open>Claims about the store\<close>

text \<open>
  Claim C1. \<^verbatim>\<open>Get\<close> reports the key found exactly when it is in the map with no expiry
  or with an expiry strictly after the clock reading, and then returns its value and
  leaves the store as it was. When the key is in the map with a non-zero expiry at or
  before the clock reading, \<^verbatim>\<open>Get\<close> returns not found, the key is gone from the store
  it leaves, and a \<^verbatim>\<open>TTL\<close> of that key on that store, at any clock readings, returns
  \<open>-2\<close> and not found.
\<close>

theorem Get_found_iff_live:
  "(snd (fst (Get now m key)) \<longleftrightarrow>
      (\<exists>v. data m key = Some v \<and> (expiry v = 0 \<or> now < expiry v))) \<and>
   (\<forall>v. data m key = Some v \<and> (expiry v = 0 \<or> now < expiry v) \<longrightarrow>
      Get now m key = ((val v, True), m)) \<and>
   (\<forall>v. data m key = Some v \<and> expiry v \<noteq> 0 \<and> expiry v \<le> now \<longrightarrow>
      Get now m key = (([], False), m\<lparr>data := (data m)(key := None)\<rparr>) \<and>
      data (snd (Get now m key)) key = None \<and>
      (\<forall>now1 now2. TTL now1 now2 (snd (Get now m key)) key =
         ((- 2, False), snd (Get now m key))))"
  by (auto simp add: Get_cases TTL_cases split: option.splits)

theorem Get_found_iff_live_witness:
  "Get 50 \<lparr>data = [''a'' \<mapsto> \<lparr>val = ''x'', expiry = 100\<rparr>]\<rparr> ''a'' =
     ((''x'', True), \<lparr>data = [''a'' \<mapsto> \<lparr>val = ''x'', expiry = 100\<rparr>]\<rparr>) \<and>
   Get 100 \<lparr>data = [''a'' \<mapsto> \<lparr>val = ''x'', expiry = 100\<rparr>]\<rparr> ''a'' =
     (([], False), \<lparr>data = Map.empty\<rparr>) \<and>
   TTL 101 102 (snd (Get 100 \<lparr>data = [''a'' \<mapsto> \<lparr>val = ''x'', expiry = 100\<rparr>]\<rparr> ''a'')) ''a'' =
     ((- 2, False), \<lparr>data = Map.empty\<rparr>)"
proof -
  let ?m = "\<lparr>data = [''a'' \<mapsto> \<lparr>val = ''x'', expiry = 100\<rparr>]\<rparr>"
  let ?v = "\<lparr>val = ''x'', expiry = 100\<rparr>"
  have live: "data ?m ''a'' = Some ?v \<and> (expiry ?v = 0 \<or> 50 < expiry ?v)"
    by simp
  have dead: "data ?m ''a'' = Some ?v \<and> expiry ?v \<noteq> 0 \<and> expiry ?v \<le> 100"
    by simp
  from live Get_found_iff_live [of 50 ?m "''a''"]
  have g1: "Get 50 ?m ''a'' = ((val ?v, True), ?m)"
    by blast
  from dead Get_found_iff_live [of 100 ?m "''a''"]
  have g2: "Get 100 ?m ''a'' = (([], False), ?m\<lparr>data := (data ?m)(''a'' := None)\<rparr>) \<and>
      (\<forall>now1 now2. TTL now1 now2 (snd (Get 100 ?m ''a'')) ''a'' =
         ((- 2, False), snd (Get 100 ?m ''a'')))"
    by blast
  from g2 have g3: "TTL 101 102 (snd (Get 100 ?m ''a'')) ''a'' = ((- 2, False), snd (Get 100 ?m ''a''))"
    by blast
  from g2 have g4: "Get 100 ?m ''a'' = (([], False), \<lparr>data = Map.empty\<rparr>)"
    by simp
  show ?thesis
    using g1 g3 g4 by simp
qed

text \<open>
  Claim C2. The outcomes of \<^verbatim>\<open>TTL\<close>: an absent key gives \<open>(-2, false)\<close>; a key with no
  expiry gives \<open>(-1, true)\<close>; a key whose expiry is strictly after the first clock reading
  gives, with found true and the store as it was, the number
  \<^verbatim>\<open>int64(expiry.Sub(now).Seconds())\<close> at the second clock reading, which lies between
  the time from that reading to the expiry in seconds rounded down and the same rounded
  up (\<^verbatim>\<open>Sub\<close> is that time whenever it fits an int64 of nanoseconds); a key whose
  non-zero expiry is at or before the first clock reading is deleted and gives
  \<open>(-2, false)\<close>.
\<close>

theorem TTL_outcomes:
  "(data m key = None \<longrightarrow> TTL now1 now2 m key = ((- 2, False), m)) \<and>
   (\<forall>v. data m key = Some v \<and> expiry v = 0 \<longrightarrow> TTL now1 now2 m key = ((- 1, True), m)) \<and>
   (\<forall>v. data m key = Some v \<and> now1 < expiry v \<and> expiry v \<noteq> 0 \<longrightarrow>
      (\<exists>n. TTL now1 now2 m key = ((n, True), m) \<and>
         n = int64_of_float64 (Seconds (Sub (expiry v) now2)) \<and>
         \<lfloor>(of_int (Sub (expiry v) now2) :: rat) / 1000000000\<rfloor> \<le> n \<and>
         n \<le> \<lceil>(of_int (Sub (expiry v) now2) :: rat) / 1000000000\<rceil>) \<and>
      (minDuration \<le> expiry v - now2 \<and> expiry v - now2 \<le> maxDuration \<longrightarrow>
         Sub (expiry v) now2 = expiry v - now2)) \<and>
   (\<forall>v. data m key = Some v \<and> expiry v \<noteq> 0 \<and> expiry v \<le> now1 \<longrightarrow>
      TTL now1 now2 m key = ((- 2, False), m\<lparr>data := (data m)(key := None)\<rparr>))"
proof -
  have w: "\<lfloor>(of_int (Sub t now2) :: rat) / 1000000000\<rfloor> \<le> int64_of_float64 (Seconds (Sub t now2)) \<and>
      int64_of_float64 (Seconds (Sub t now2)) \<le> \<lceil>(of_int (Sub t now2) :: rat) / 1000000000\<rceil>" for t
    using Sub_range [of t now2] by (intro Seconds_whole) simp_all
  show ?thesis
    using w by (auto simp add: TTL_cases Sub_exact split: option.splits)
qed

theorem TTL_outcomes_witness:
  "TTL 1000000000 1000000001 \<lparr>data = Map.empty\<rparr> ''a'' = ((- 2, False), \<lparr>data = Map.empty\<rparr>) \<and>
   TTL 1000000000 1000000001 \<lparr>data = [''a'' \<mapsto> \<lparr>val = ''x'', expiry = 0\<rparr>]\<rparr> ''a'' =
     ((- 1, True), \<lparr>data = [''a'' \<mapsto> \<lparr>val = ''x'', expiry = 0\<rparr>]\<rparr>) \<and>
   TTL 1000000000 1000000001 \<lparr>data = [''a'' \<mapsto> \<lparr>val = ''x'', expiry = 7500000000\<rparr>]\<rparr> ''a'' =
     ((6, True), \<lparr>data = [''a'' \<mapsto> \<lparr>val = ''x'', expiry = 7500000000\<rparr>]\<rparr>) \<and>
   TTL 1000000000 1000000001 \<lparr>data = [''a'' \<mapsto> \<lparr>val = ''x'', expiry = 1000000000\<rparr>]\<rparr> ''a'' =
     ((- 2, False), \<lparr>data = Map.empty\<rparr>)"
proof -
  let ?e = "\<lparr>data = Map.empty\<rparr>"
  let ?v0 = "\<lparr>val = ''x'', expiry = 0\<rparr>"
  let ?v1 = "\<lparr>val = ''x'', expiry = 7500000000\<rparr>"
  let ?v2 = "\<lparr>val = ''x'', expiry = 1000000000\<rparr>"
  have "int64_of_float64 (Seconds 6499999999) = 6"
    by code_simp
  moreover have "Sub 7500000000 1000000001 = 6499999999"
    by (simp add: Sub_def minDuration_def maxDuration_def)
  ultimately have e: "int64_of_float64 (Seconds (Sub (expiry ?v1) 1000000001)) = 6"
    by simp
  have h0: "data ?e ''a'' = None"
    by simp
  have h1: "data \<lparr>data = [''a'' \<mapsto> ?v0]\<rparr> ''a'' = Some ?v0 \<and> expiry ?v0 = 0"
    by simp
  have h2: "data \<lparr>data = [''a'' \<mapsto> ?v1]\<rparr> ''a'' = Some ?v1 \<and> 1000000000 < expiry ?v1 \<and> expiry ?v1 \<noteq> 0"
    by simp
  have h3: "data \<lparr>data = [''a'' \<mapsto> ?v2]\<rparr> ''a'' = Some ?v2 \<and> expiry ?v2 \<noteq> 0 \<and> expiry ?v2 \<le> 1000000000"
    by simp
  from h0 TTL_outcomes [of ?e "''a''" 1000000000 1000000001]
  have c0: "TTL 1000000000 1000000001 ?e ''a'' = ((- 2, False), ?e)"
    by blast
  from h1 TTL_outcomes [of "\<lparr>data = [''a'' \<mapsto> ?v0]\<rparr>" "''a''" 1000000000 1000000001]
  have c1: "TTL 1000000000 1000000001 \<lparr>data = [''a'' \<mapsto> ?v0]\<rparr> ''a'' = ((- 1, True), \<lparr>data = [''a'' \<mapsto> ?v0]\<rparr>)"
    by blast
  from h2 TTL_outcomes [of "\<lparr>data = [''a'' \<mapsto> ?v1]\<rparr>" "''a''" 1000000000 1000000001]
  have "\<exists>n. TTL 1000000000 1000000001 \<lparr>data = [''a'' \<mapsto> ?v1]\<rparr> ''a'' = ((n, True), \<lparr>data = [''a'' \<mapsto> ?v1]\<rparr>) \<and>
         n = int64_of_float64 (Seconds (Sub (expiry ?v1) 1000000001))"
    by blast
  with e have c2: "TTL 1000000000 1000000001 \<lparr>data = [''a'' \<mapsto> ?v1]\<rparr> ''a'' = ((6, True), \<lparr>data = [''a'' \<mapsto> ?v1]\<rparr>)"
    by auto
  from h3 TTL_outcomes [of "\<lparr>data = [''a'' \<mapsto> ?v2]\<rparr>" "''a''" 1000000000 1000000001]
  have c3: "TTL 1000000000 1000000001 \<lparr>data = [''a'' \<mapsto> ?v2]\<rparr> ''a'' =
      ((- 2, False), \<lparr>data = [''a'' \<mapsto> ?v2]\<rparr>\<lparr>data := (data \<lparr>data = [''a'' \<mapsto> ?v2]\<rparr>)(''a'' := None)\<rparr>)"
    by blast
  from c0 c1 c2 c3 show ?thesis
    by simp
qed

text \<open>
  Claim C4. After a \<^verbatim>\<open>Set\<close> of a key with any duration and a second \<^verbatim>\<open>Set\<close> of the key
  with no duration, \<^verbatim>\<open>TTL\<close> of the key returns \<open>(-1, true)\<close> at any clock readings and
  the entry has the zero expiry; and a \<^verbatim>\<open>Set\<close> with no duration or with a duration that
  is not positive stores the value with the zero expiry.
\<close>

theorem Set_overwrite_clears_expiry:
  "TTL now3 now4 (Set now2 (Set now1 m k v1 ttl1) k v2 None) k =
     ((- 1, True), Set now2 (Set now1 m k v1 ttl1) k v2 None) \<and>
   data (Set now2 (Set now1 m k v1 ttl1) k v2 None) k = Some \<lparr>val = v2, expiry = 0\<rparr> \<and>
   (ttl = None \<or> (\<exists>d. ttl = Some d \<and> d \<le> 0) \<longrightarrow>
      data (Set now m k v ttl) k = Some \<lparr>val = v, expiry = 0\<rparr>)"
  by (auto simp add: TTL_cases Set_no_expiry)

theorem Set_overwrite_clears_expiry_witness:
  "TTL 3000000000 3000000001
     (Set 2000000000 (Set 1000000000 \<lparr>data = Map.empty\<rparr> ''k'' ''v1'' (Some (5 * Second))) ''k'' ''v2'' None) ''k'' =
     ((- 1, True), \<lparr>data = [''k'' \<mapsto> \<lparr>val = ''v2'', expiry = 0\<rparr>]\<rparr>) \<and>
   (\<exists>d. Some (- 3 * Second) = Some d \<and> d \<le> 0) \<and>
   data (Set 1000000000 \<lparr>data = Map.empty\<rparr> ''k'' ''v'' (Some (- 3 * Second))) ''k'' =
     Some \<lparr>val = ''v'', expiry = 0\<rparr>"
  using Set_overwrite_clears_expiry [of 3000000000 3000000001 2000000000 1000000000
      "\<lparr>data = Map.empty\<rparr>" "''k''" "''v1''" "Some (5 * Second)" "''v2''"
      "Some (- 3 * Second)" 1000000000 "''v''"]
  by (simp add: Second_def Set_def)

text \<open>
  Claim C6. One tick of the sweep, visiting the keys of the map in any order, leaves
  at each key: nothing, where the entry had a non-zero expiry strictly before the clock
  reading of the tick (or where there was no entry); the same entry otherwise.
\<close>

theorem cleanup_tick_removes_exactly_expired:
  "set ks = dom (data m) \<Longrightarrow>
   data (cleanupLoop now ks m) k =
     (case data m k of None \<Rightarrow> None
      | Some v \<Rightarrow> if expiry v \<noteq> 0 \<and> expiry v < now then None else Some v)"
  by (auto simp add: cleanupLoop_data split: option.splits)

theorem cleanup_tick_removes_exactly_expired_witness:
  "set [''a'', ''b'', ''c''] =
     dom (data \<lparr>data = [''a'' \<mapsto> \<lparr>val = ''x'', expiry = 5\<rparr>,
                        ''b'' \<mapsto> \<lparr>val = ''y'', expiry = 0\<rparr>,
                        ''c'' \<mapsto> \<lparr>val = ''z'', expiry = 10\<rparr>]\<rparr>) \<and>
   data (cleanupLoop 10 [''a'', ''b'', ''c'']
           \<lparr>data = [''a'' \<mapsto> \<lparr>val = ''x'', expiry = 5\<rparr>,
                    ''b'' \<mapsto> \<lparr>val = ''y'', expiry = 0\<rparr>,
                    ''c'' \<mapsto> \<lparr>val = ''z'', expiry = 10\<rparr>]\<rparr>) ''a'' = None \<and>
   data (cleanupLoop 10 [''a'', ''b'', ''c'']
           \<lparr>data = [''a'' \<mapsto> \<lparr>val = ''x'', expiry = 5\<rparr>,
                    ''b'' \<mapsto> \<lparr>val = ''y'', expiry = 0\<rparr>,
                    ''c'' \<mapsto> \<lparr>val = ''z'', expiry = 10\<rparr>]\<rparr>) ''c'' =
     Some \<lparr>val = ''z'', expiry = 10\<rparr>"
proof -
  let ?m = "\<lparr>data = [''a'' \<mapsto> \<lparr>val = ''x'', expiry = 5\<rparr>,
                    ''b'' \<mapsto> \<lparr>val = ''y'', expiry = 0\<rparr>,
                    ''c'' \<mapsto> \<lparr>val = ''z'', expiry = 10\<rparr>]\<rparr>"
  have h: "set [''a'', ''b'', ''c''] = dom (data ?m)"
    by auto
  show ?thesis
    using h cleanup_tick_removes_exactly_expired [OF h, of 10 "''a''"]
      cleanup_tick_removes_exactly_expired [OF h, of 10 "''c''"]
    by simp
qed

text \<open>
  Claim C8. \<^verbatim>\<open>Delete\<close> is a total function to a store (it has no failure value): on
  an absent key it returns the store it was given, after it the key is absent, and a
  second \<^verbatim>\<open>Delete\<close> of the key changes nothing more. The handler answers every
  \<^verbatim>\<open>DEL\<close> of two tokens with \<^verbatim>\<open>OK\<close> after that one call.
\<close>

theorem Delete_idempotent_total:
  "(data m key = None \<longrightarrow> Delete m key = m) \<and>
   data (Delete m key) key = None \<and>
   Delete (Delete m key) key = Delete m key \<and>
   (Fields lib (TrimSpace lib line) = [c, key] \<and> ToUpper lib c = ''DEL'' \<longrightarrow>
      handleCommand lib now1 now2 m line =
        Inr \<lparr>written = ''OK\<newline>'', called = [CallDelete key], store = Delete m key\<rparr>)"
  by (auto simp add: Delete_def delete_def handleCommand_def Let_def fun_upd_idem)

theorem Delete_idempotent_total_witness:
  "data \<lparr>data = Map.empty\<rparr> ''a'' = None \<and>
   Delete \<lparr>data = Map.empty\<rparr> ''a'' = \<lparr>data = Map.empty\<rparr> \<and>
   Fields go_stdlib (TrimSpace go_stdlib ''del a\<newline>'') = [''del'', ''a''] \<and>
   ToUpper go_stdlib ''del'' = ''DEL'' \<and>
   handleCommand go_stdlib 1 2 \<lparr>data = Map.empty\<rparr> ''del a\<newline>'' =
     Inr \<lparr>written = ''OK\<newline>'', called = [CallDelete ''a''], store = \<lparr>data = Map.empty\<rparr>\<rparr>"
proof -
  have f: "Fields go_stdlib (TrimSpace go_stdlib ''del a\<newline>'') = [''del'', ''a'']"
    by (simp add: go_stdlib_def strings_Fields_def strings_TrimSpace_def isSpace_def)
  have u: "ToUpper go_stdlib ''del'' = ''DEL''"
    by (simp add: go_stdlib_def strings_ToUpper_def upperChar_def)
  show ?thesis
    using f u Delete_idempotent_total [of "\<lparr>data = Map.empty\<rparr>" "''a''" go_stdlib "''del a\<newline>''" "''del''" 1 2]
    by simp
qed

text \<open>
  Claim C9. \<^verbatim>\<open>Set\<close> and \<^verbatim>\<open>Delete\<close> of a key leave what the map holds at every other
  key (an entry with its value and expiry, or nothing) as it was.
\<close>

theorem Set_Delete_frame:
  "k2 \<noteq> k \<Longrightarrow>
   data (Set now m k v ttl) k2 = data m k2 \<and> data (Delete m k) k2 = data m k2"
  by (simp add: Set_def Delete_def delete_def Let_def)

theorem Set_Delete_frame_witness:
  "''b'' \<noteq> ''a'' \<and>
   data (Set 1000000000 \<lparr>data = [''b'' \<mapsto> \<lparr>val = ''y'', expiry = 0\<rparr>]\<rparr> ''a'' ''x'' (Some Second)) ''b'' =
     Some \<lparr>val = ''y'', expiry = 0\<rparr> \<and>
   data (Delete \<lparr>data = [''b'' \<mapsto> \<lparr>val = ''y'', expiry = 0\<rparr>]\<rparr> ''a'') ''b'' =
     Some \<lparr>val = ''y'', expiry = 0\<rparr>"
proof -
  have h: "''b'' \<noteq> ''a''" by simp
  show ?thesis
    using h Set_Delete_frame [OF h, of 1000000000 "\<lparr>data = [''b'' \<mapsto> \<lparr>val = ''y'', expiry = 0\<rparr>]\<rparr>" "''x''" "Some Second"]
    by simp
qed

text \<open>
  Claim C10. \<^verbatim>\<open>Get\<close> and \<^verbatim>\<open>TTL\<close> return the store they were given when the key is
  absent or is present and not expired at the (first) clock reading; when it is present
  and expired they return the store with that key deleted; in every case the map is as
  it was at every other key, and each entry of the store they return is an entry of the
  store they were given.
\<close>

theorem Get_TTL_frame:
  "(data m key = None \<or> (\<exists>v. data m key = Some v \<and> (expiry v = 0 \<or> now < expiry v)) \<longrightarrow>
      snd (Get now m key) = m \<and> snd (TTL now now2 m key) = m) \<and>
   (\<forall>v. data m key = Some v \<and> expiry v \<noteq> 0 \<and> expiry v \<le> now \<longrightarrow>
      snd (Get now m key) = m\<lparr>data := (data m)(key := None)\<rparr> \<and>
      snd (TTL now now2 m key) = m\<lparr>data := (data m)(key := None)\<rparr>) \<and>
   (k2 \<noteq> key \<longrightarrow>
      data (snd (Get now m key)) k2 = data m k2 \<and>
      data (snd (TTL now now2 m key)) k2 = data m k2) \<and>
   (\<forall>k e. data (snd (Get now m key)) k = Some e \<longrightarrow> data m k = Some e) \<and>
   (\<forall>k e. data (snd (TTL now now2 m key)) k = Some e \<longrightarrow> data m k = Some e)"
  by (auto simp add: Get_cases TTL_cases split: option.splits if_splits)

theorem Get_TTL_frame_witness:
  "snd (Get 50 \<lparr>data = [''a'' \<mapsto> \<lparr>val = ''x'', expiry = 100\<rparr>]\<rparr> ''a'') =
     \<lparr>data = [''a'' \<mapsto> \<lparr>val = ''x'', expiry = 100\<rparr>]\<rparr> \<and>
   snd (TTL 50 51 \<lparr>data = [''a'' \<mapsto> \<lparr>val = ''x'', expiry = 100\<rparr>]\<rparr> ''a'') =
     \<lparr>data = [''a'' \<mapsto> \<lparr>val = ''x'', expiry = 100\<rparr>]\<rparr> \<and>
   snd (Get 100 \<lparr>data = [''a'' \<mapsto> \<lparr>val = ''x'', expiry = 100\<rparr>]\<rparr> ''a'') = \<lparr>data = Map.empty\<rparr> \<and>
   snd (TTL 100 101 \<lparr>data = [''a'' \<mapsto> \<lparr>val = ''x'', expiry = 100\<rparr>]\<rparr> ''a'') = \<lparr>data = Map.empty\<rparr> \<and>
   ''b'' \<noteq> ''a'' \<and>
   data (snd (Get 100 \<lparr>data = [''a'' \<mapsto> \<lparr>val = ''x'', expiry = 100\<rparr>]\<rparr> ''a'')) ''b'' = None"
proof -
  let ?v = "\<lparr>val = ''x'', expiry = 100\<rparr>"
  let ?m = "\<lparr>data = [''a'' \<mapsto> ?v]\<rparr>"
  have live: "data ?m ''a'' = None \<or>
      (\<exists>v. data ?m ''a'' = Some v \<and> (expiry v = 0 \<or> 50 < expiry v))"
    by simp
  have dead: "data ?m ''a'' = Some ?v \<and> expiry ?v \<noteq> 0 \<and> expiry ?v \<le> 100"
    by simp
  have other: "''b'' \<noteq> ''a''"
    by simp
  from live Get_TTL_frame [of ?m "''a''" 50 51 "''b''"]
  have a: "snd (Get 50 ?m ''a'') = ?m \<and> snd (TTL 50 51 ?m ''a'') = ?m"
    by blast
  from dead Get_TTL_frame [of ?m "''a''" 100 101 "''b''"]
  have b: "snd (Get 100 ?m ''a'') = ?m\<lparr>data := (data ?m)(''a'' := None)\<rparr> \<and>
      snd (TTL 100 101 ?m ''a'') = ?m\<lparr>data := (data ?m)(''a'' := None)\<rparr>"
    by blast
  from other Get_TTL_frame [of ?m "''a''" 100 101 "''b''"]
  have c: "data (snd (Get 100 ?m ''a'')) ''b'' = data ?m ''b''"
    by blast
  from a b c other show ?thesis
    by simp
qed

subsection \<open>The handler by cases, and the library on the lines used below\<close>

lemma handleCommand_no_tokens:
  "Fields lib (TrimSpace lib line) = [] \<Longrightarrow>
   handleCommand lib now1 now2 mr line = Inl (IndexOutOfRange 0 0)"
  by (simp add: handleCommand_def)

lemma handleCommand_SET:
  "Fields lib (TrimSpace lib line) = cmdParts \<Longrightarrow> cmdParts \<noteq> [] \<Longrightarrow>
   ToUpper lib (cmdParts ! 0) = ''SET'' \<Longrightarrow>
   handleCommand lib now1 now2 mr line =
     (if length cmdParts < 3
      then Inr \<lparr>written = ''ERR wrong number of arguments for 'SET' command\<newline>'',
                called = [], store = mr\<rparr>
      else if length cmdParts = 5 \<and> ToUpper lib (cmdParts ! 3) = ''EX''
      then (case ParseDuration lib (cmdParts ! 4 @ ''s'') of
              None \<Rightarrow> Inr \<lparr>written = ''ERR invalid expire time\<newline>'', called = [], store = mr\<rparr>
            | Some duration \<Rightarrow>
                Inr \<lparr>written = ''OK\<newline>'',
                     called = [CallSet (cmdParts ! 1) (cmdParts ! 2) (Some duration)],
                     store = Set now1 mr (cmdParts ! 1) (cmdParts ! 2) (Some duration)\<rparr>)
      else Inr \<lparr>written = ''OK\<newline>'',
                called = [CallSet (cmdParts ! 1) (cmdParts ! 2) None],
                store = Set now1 mr (cmdParts ! 1) (cmdParts ! 2) None\<rparr>)"
  by (auto simp add: handleCommand_def Let_def split: option.splits)

lemma upper_SET: "ToUpper go_stdlib ''SET'' = ''SET''"
  by code_simp

lemma upper_set: "ToUpper go_stdlib ''set'' = ''SET''"
  by code_simp

lemma upper_EX: "ToUpper go_stdlib ''EX'' = ''EX''"
  by code_simp

lemma upper_ex: "ToUpper go_stdlib ''ex'' = ''EX''"
  by code_simp

lemma upper_PX: "ToUpper go_stdlib ''PX'' = ''PX''"
  by code_simp

subsection \<open>Claims about the handler\<close>

text \<open>
  Claim C3, as the code has it. For a line whose first token is \<^verbatim>\<open>SET\<close> in upper case,
  the handler writes the arity error exactly when there are fewer than three tokens. It
  writes \<^verbatim>\<open>ERR invalid expire time\<close> exactly when there are five tokens, the fourth is
  \<^verbatim>\<open>EX\<close> in upper case and \<^verbatim>\<open>time.ParseDuration\<close> rejects the fifth with \<^verbatim>\<open>s\<close>
  appended. In these two cases it calls no method of the store and leaves it as it was.
  In every other case it calls \<^verbatim>\<open>Set\<close> once with the second and third token and
  writes \<^verbatim>\<open>OK\<close>: with the parsed duration when there are five tokens and the fourth is
  \<^verbatim>\<open>EX\<close>, with no duration otherwise (four tokens, six or more, five without
  \<^verbatim>\<open>EX\<close>).
\<close>

theorem SET_accepted_shapes:
  assumes "Fields lib (TrimSpace lib line) = cmdParts" and "cmdParts \<noteq> []"
    and "ToUpper lib (cmdParts ! 0) = ''SET''"
  shows "\<exists>r. handleCommand lib now1 now2 mr line = Inr r \<and>
     (written r = ''ERR wrong number of arguments for 'SET' command\<newline>'' \<longleftrightarrow>
        length cmdParts < 3) \<and>
     (written r = ''ERR invalid expire time\<newline>'' \<longleftrightarrow>
        length cmdParts = 5 \<and> ToUpper lib (cmdParts ! 3) = ''EX'' \<and>
        ParseDuration lib (cmdParts ! 4 @ ''s'') = None) \<and>
     (called r = [] \<longleftrightarrow>
        length cmdParts < 3 \<or>
        (length cmdParts = 5 \<and> ToUpper lib (cmdParts ! 3) = ''EX'' \<and>
         ParseDuration lib (cmdParts ! 4 @ ''s'') = None)) \<and>
     (called r = [] \<longrightarrow> store r = mr) \<and>
     (called r \<noteq> [] \<longrightarrow>
        written r = ''OK\<newline>'' \<and>
        (\<exists>ttl. called r = [CallSet (cmdParts ! 1) (cmdParts ! 2) ttl] \<and>
           store r = Set now1 mr (cmdParts ! 1) (cmdParts ! 2) ttl \<and>
           ttl = (if length cmdParts = 5 \<and> ToUpper lib (cmdParts ! 3) = ''EX''
                  then ParseDuration lib (cmdParts ! 4 @ ''s'') else None)))"
proof (cases "length cmdParts < 3")
  case True
  then show ?thesis
    using handleCommand_SET [OF assms, of now1 now2 mr] by simp
next
  case False
  note long = this
  show ?thesis
  proof (cases "length cmdParts = 5 \<and> ToUpper lib (cmdParts ! 3) = ''EX''")
    case False
    then show ?thesis
      using long handleCommand_SET [OF assms, of now1 now2 mr] by auto
  next
    case True
    note ex = this
    show ?thesis
    proof (cases "ParseDuration lib (cmdParts ! 4 @ ''s'')")
      case None
      then show ?thesis
        using ex handleCommand_SET [OF assms, of now1 now2 mr] by simp
    next
      case (Some d)
      then show ?thesis
        using ex handleCommand_SET [OF assms, of now1 now2 mr] by simp
    qed
  qed
qed

theorem SET_accepted_shapes_witness:
  "Fields go_stdlib (TrimSpace go_stdlib ''set k v ex 10\<newline>'') = [''set'', ''k'', ''v'', ''ex'', ''10''] \<and>
   ToUpper go_stdlib ([''set'', ''k'', ''v'', ''ex'', ''10''] ! 0) = ''SET'' \<and>
   (\<exists>r. handleCommand go_stdlib 1 2 \<lparr>data = Map.empty\<rparr> ''set k v ex 10\<newline>'' = Inr r \<and>
      written r = ''OK\<newline>'' \<and> called r = [CallSet ''k'' ''v'' (Some 10000000000)])"
proof -
  let ?parts = "[''set'', ''k'', ''v'', ''ex'', ''10'']"
  have f: "Fields go_stdlib (TrimSpace go_stdlib ''set k v ex 10\<newline>'') = ?parts"
    by code_simp
  have n: "?parts \<noteq> []"
    by simp
  have u: "ToUpper go_stdlib (?parts ! 0) = ''SET''"
    using upper_set by simp
  have p: "ParseDuration go_stdlib (?parts ! 4 @ ''s'') = Some 10000000000"
    by code_simp
  from SET_accepted_shapes [OF f n u, of 1 2 "\<lparr>data = Map.empty\<rparr>"]
  obtain r where r: "handleCommand go_stdlib 1 2 \<lparr>data = Map.empty\<rparr> ''set k v ex 10\<newline>'' = Inr r"
    and c: "called r = [] \<longleftrightarrow>
        length ?parts < 3 \<or>
        (length ?parts = 5 \<and> ToUpper go_stdlib (?parts ! 3) = ''EX'' \<and>
         ParseDuration go_stdlib (?parts ! 4 @ ''s'') = None)"
    and s: "called r \<noteq> [] \<longrightarrow>
        written r = ''OK\<newline>'' \<and>
        (\<exists>ttl. called r = [CallSet (?parts ! 1) (?parts ! 2) ttl] \<and>
           store r = Set 1 \<lparr>data = Map.empty\<rparr> (?parts ! 1) (?parts ! 2) ttl \<and>
           ttl = (if length ?parts = 5 \<and> ToUpper go_stdlib (?parts ! 3) = ''EX''
                  then ParseDuration go_stdlib (?parts ! 4 @ ''s'') else None))"
    by blast
  from c p have "called r \<noteq> []"
    by simp
  with s p upper_ex have "written r = ''OK\<newline>'' \<and> called r = [CallSet ''k'' ''v'' (Some 10000000000)]"
    by simp
  with r f u show ?thesis
    by blast
qed

text \<open>
  Claim C3 as stated fails: a \<^verbatim>\<open>SET\<close> of four tokens, a \<^verbatim>\<open>SET\<close> of five tokens whose
  fourth is not \<^verbatim>\<open>EX\<close>, and \<^verbatim>\<open>EX\<close> with a negative or a fractional number of seconds
  are each answered with \<^verbatim>\<open>OK\<close> after a call of \<^verbatim>\<open>Set\<close>.
\<close>

theorem SET_accepted_shapes_counterexample:
  "handleCommand go_stdlib 1 2 \<lparr>data = Map.empty\<rparr> ''SET k v x\<newline>'' =
     Inr \<lparr>written = ''OK\<newline>'', called = [CallSet ''k'' ''v'' None],
          store = Set 1 \<lparr>data = Map.empty\<rparr> ''k'' ''v'' None\<rparr> \<and>
   handleCommand go_stdlib 1 2 \<lparr>data = Map.empty\<rparr> ''SET k v PX 10\<newline>'' =
     Inr \<lparr>written = ''OK\<newline>'', called = [CallSet ''k'' ''v'' None],
          store = Set 1 \<lparr>data = Map.empty\<rparr> ''k'' ''v'' None\<rparr> \<and>
   handleCommand go_stdlib 1 2 \<lparr>data = Map.empty\<rparr> ''SET k v EX -5\<newline>'' =
     Inr \<lparr>written = ''OK\<newline>'', called = [CallSet ''k'' ''v'' (Some (- 5000000000))],
          store = Set 1 \<lparr>data = Map.empty\<rparr> ''k'' ''v'' (Some (- 5000000000))\<rparr> \<and>
   handleCommand go_stdlib 1 2 \<lparr>data = Map.empty\<rparr> ''SET k v EX 1.5\<newline>'' =
     Inr \<lparr>written = ''OK\<newline>'', called = [CallSet ''k'' ''v'' (Some 1500000000)],
          store = Set 1 \<lparr>data = Map.empty\<rparr> ''k'' ''v'' (Some 1500000000)\<rparr>"
proof -
  have f1: "Fields go_stdlib (TrimSpace go_stdlib ''SET k v x\<newline>'') = [''SET'', ''k'', ''v'', ''x'']"
    by code_simp
  have f2: "Fields go_stdlib (TrimSpace go_stdlib ''SET k v PX 10\<newline>'') = [''SET'', ''k'', ''v'', ''PX'', ''10'']"
    by code_simp
  have f3: "Fields go_stdlib (TrimSpace go_stdlib ''SET k v EX -5\<newline>'') = [''SET'', ''k'', ''v'', ''EX'', ''-5'']"
    by code_simp
  have f4: "Fields go_stdlib (TrimSpace go_stdlib ''SET k v EX 1.5\<newline>'') = [''SET'', ''k'', ''v'', ''EX'', ''1.5'']"
    by code_simp
  have p3: "ParseDuration go_stdlib ''-5s'' = Some (- 5000000000)"
    by code_simp
  have p4: "ParseDuration go_stdlib ''1.5s'' = Some 1500000000"
    by code_simp
  have c1: "handleCommand go_stdlib 1 2 \<lparr>data = Map.empty\<rparr> ''SET k v x\<newline>'' =
     Inr \<lparr>written = ''OK\<newline>'', called = [CallSet ''k'' ''v'' None],
          store = Set 1 \<lparr>data = Map.empty\<rparr> ''k'' ''v'' None\<rparr>"
    using handleCommand_SET [OF f1, of 1 2 "\<lparr>data = Map.empty\<rparr>"] upper_SET by simp
  have c2: "handleCommand go_stdlib 1 2 \<lparr>data = Map.empty\<rparr> ''SET k v PX 10\<newline>'' =
     Inr \<lparr>written = ''OK\<newline>'', called = [CallSet ''k'' ''v'' None],
          store = Set 1 \<lparr>data = Map.empty\<rparr> ''k'' ''v'' None\<rparr>"
    using handleCommand_SET [OF f2, of 1 2 "\<lparr>data = Map.empty\<rparr>"] upper_SET upper_PX by simp
  have c3: "handleCommand go_stdlib 1 2 \<lparr>data = Map.empty\<rparr> ''SET k v EX -5\<newline>'' =
     Inr \<lparr>written = ''OK\<newline>'', called = [CallSet ''k'' ''v'' (Some (- 5000000000))],
          store = Set 1 \<lparr>data = Map.empty\<rparr> ''k'' ''v'' (Some (- 5000000000))\<rparr>"
    using handleCommand_SET [OF f3, of 1 2 "\<lparr>data = Map.empty\<rparr>"] upper_SET upper_EX p3 by simp
  have c4: "handleCommand go_stdlib 1 2 \<lparr>data = Map.empty\<rparr> ''SET k v EX 1.5\<newline>'' =
     Inr \<lparr>written = ''OK\<newline>'', called = [CallSet ''k'' ''v'' (Some 1500000000)],
          store = Set 1 \<lparr>data = Map.empty\<rparr> ''k'' ''v'' (Some 1500000000)\<rparr>"
    using handleCommand_SET [OF f4, of 1 2 "\<lparr>data = Map.empty\<rparr>"] upper_SET upper_EX p4 by simp
  from c1 c2 c3 c4 show ?thesis
    by blast
qed

text \<open>
  Claim C5, as the code has it. For a \<^verbatim>\<open>SET\<close> of five tokens whose fourth token is
  \<^verbatim>\<open>EX\<close> in upper case and whose fifth token, with \<^verbatim>\<open>s\<close> appended, is rejected by
  \<^verbatim>\<open>time.ParseDuration\<close>, the handler writes \<^verbatim>\<open>ERR invalid expire time\<close>, calls no
  method of the store and leaves the store as it was.
\<close>

theorem SET_invalid_expire_unmodified:
  assumes "Fields lib (TrimSpace lib line) = cmdParts" and "length cmdParts = 5"
    and "ToUpper lib (cmdParts ! 0) = ''SET''"
    and "ToUpper lib (cmdParts ! 3) = ''EX''"
    and "ParseDuration lib (cmdParts ! 4 @ ''s'') = None"
  shows "handleCommand lib now1 now2 mr line =
     Inr \<lparr>written = ''ERR invalid expire time\<newline>'', called = [], store = mr\<rparr>"
proof -
  from assms(2) have ne: "cmdParts \<noteq> []"
    by auto
  show ?thesis
    using assms(2,4,5) handleCommand_SET [OF assms(1) ne assms(3), of now1 now2 mr]
    by simp
qed

theorem SET_invalid_expire_unmodified_witness:
  "Fields go_stdlib (TrimSpace go_stdlib ''SET k v ex abc\<newline>'') = [''SET'', ''k'', ''v'', ''ex'', ''abc''] \<and>
   ParseDuration go_stdlib (''abc'' @ ''s'') = None \<and>
   handleCommand go_stdlib 1 2 \<lparr>data = [''k'' \<mapsto> \<lparr>val = ''old'', expiry = 0\<rparr>]\<rparr> ''SET k v ex abc\<newline>'' =
     Inr \<lparr>written = ''ERR invalid expire time\<newline>'', called = [],
          store = \<lparr>data = [''k'' \<mapsto> \<lparr>val = ''old'', expiry = 0\<rparr>]\<rparr>\<rparr>"
proof -
  let ?parts = "[''SET'', ''k'', ''v'', ''ex'', ''abc'']"
  have f: "Fields go_stdlib (TrimSpace go_stdlib ''SET k v ex abc\<newline>'') = ?parts"
    by code_simp
  have l: "length ?parts = 5"
    by simp
  have u0: "ToUpper go_stdlib (?parts ! 0) = ''SET''"
    using upper_SET by simp
  have u3: "ToUpper go_stdlib (?parts ! 3) = ''EX''"
    using upper_ex by simp
  have p0: "ParseDuration go_stdlib ''abcs'' = None"
    by code_simp
  then have p: "ParseDuration go_stdlib (?parts ! 4 @ ''s'') = None"
    by simp
  from f p0 SET_invalid_expire_unmodified [OF f l u0 u3 p, of 1 2
      "\<lparr>data = [''k'' \<mapsto> \<lparr>val = ''old'', expiry = 0\<rparr>]\<rparr>"]
  show ?thesis
    by simp
qed

text \<open>
  Claim C5 as stated fails where the fourth token is not \<^verbatim>\<open>EX\<close>: the fifth token is
  then not parsed at all, \<^verbatim>\<open>Set\<close> is called and replaces the entry of the key.
\<close>

theorem SET_invalid_expire_unmodified_counterexample:
  "ParseDuration go_stdlib (''abc'' @ ''s'') = None \<and>
   handleCommand go_stdlib 1 2 \<lparr>data = [''k'' \<mapsto> \<lparr>val = ''old'', expiry = 0\<rparr>]\<rparr> ''SET k v PX abc\<newline>'' =
     Inr \<lparr>written = ''OK\<newline>'', called = [CallSet ''k'' ''v'' None],
          store = Set 1 \<lparr>data = [''k'' \<mapsto> \<lparr>val = ''old'', expiry = 0\<rparr>]\<rparr> ''k'' ''v'' None\<rparr> \<and>
   data \<lparr>data = [''k'' \<mapsto> \<lparr>val = ''old'', expiry = 0\<rparr>]\<rparr> ''k'' = Some \<lparr>val = ''old'', expiry = 0\<rparr> \<and>
   data (Set 1 \<lparr>data = [''k'' \<mapsto> \<lparr>val = ''old'', expiry = 0\<rparr>]\<rparr> ''k'' ''v'' None) ''k'' =
     Some \<lparr>val = ''v'', expiry = 0\<rparr>"
proof -
  have f: "Fields go_stdlib (TrimSpace go_stdlib ''SET k v PX abc\<newline>'') = [''SET'', ''k'', ''v'', ''PX'', ''abc'']"
    by code_simp
  have p0: "ParseDuration go_stdlib ''abcs'' = None"
    by code_simp
  have c: "handleCommand go_stdlib 1 2 \<lparr>data = [''k'' \<mapsto> \<lparr>val = ''old'', expiry = 0\<rparr>]\<rparr> ''SET k v PX abc\<newline>'' =
     Inr \<lparr>written = ''OK\<newline>'', called = [CallSet ''k'' ''v'' None],
          store = Set 1 \<lparr>data = [''k'' \<mapsto> \<lparr>val = ''old'', expiry = 0\<rparr>]\<rparr> ''k'' ''v'' None\<rparr>"
    using handleCommand_SET [OF f, of 1 2 "\<lparr>data = [''k'' \<mapsto> \<lparr>val = ''old'', expiry = 0\<rparr>]\<rparr>"]
      upper_SET upper_PX by simp
  from p0 c show ?thesis
    by (simp add: Set_def)
qed

text \<open>
  Claim C7 does not hold of the code. A line of white space only gives no token, and
  \<^verbatim>\<open>cmdParts[0]\<close> panics with an index out of range: the command is not answered and
  the loop of the connection does not go on to the next line.
\<close>

theorem blank_line_panics:
  "handleCommand go_stdlib 1 2 \<lparr>data = Map.empty\<rparr> [CHR 0x0D, CHR 0x0A] = Inl (IndexOutOfRange 0 0) \<and>
   handleRequest go_stdlib \<lparr>data = Map.empty\<rparr>
     [(1, 2, ''SET a 1\<newline>''), (3, 4, [CHR 0x0D, CHR 0x0A]), (5, 6, ''GET a\<newline>'')] =
     Inl (IndexOutOfRange 0 0)"
proof -
  have f: "Fields go_stdlib (TrimSpace go_stdlib [CHR 0x0D, CHR 0x0A]) = []"
    by code_simp
  have f1: "Fields go_stdlib (TrimSpace go_stdlib ''SET a 1\<newline>'') = [''SET'', ''a'', ''1'']"
    by code_simp
  have c1: "handleCommand go_stdlib 1 2 \<lparr>data = Map.empty\<rparr> ''SET a 1\<newline>'' =
      Inr \<lparr>written = ''OK\<newline>'', called = [CallSet ''a'' ''1'' None],
           store = Set 1 \<lparr>data = Map.empty\<rparr> ''a'' ''1'' None\<rparr>"
    using handleCommand_SET [OF f1, of 1 2 "\<lparr>data = Map.empty\<rparr>"] upper_SET by simp
  show ?thesis
    using c1 handleCommand_no_tokens [OF f] by simp
qed

end
